theory Spec2Isabelle
  imports Complex_Main
begin

section \<open>FInAT: the finite element base class (finat/finiteelementbase.py)\<close>

text \<open>
  A shallow embedding of \<^verbatim>\<open>FiniteElementBase\<close>. Python dictionaries are association
  lists in insertion order (a dictionary has each key once; a lookup takes the first
  entry), exceptions are values of \<open>py_error\<close> on the left of a sum, and the calls an
  element makes to its collaborators are appended to a log that is threaded through the
  computation together with the two caches of the instance.
\<close>

subsection \<open>Python values\<close>

datatype py_error =
    KeyError
  | IndexError
  | ValueError
  | TypeError
  | AssertionError
  | NotImplementedError string
  | CollaboratorError string

type_synonym ('k, 'v) dict = "('k \<times> 'v) list"

text \<open>\<^verbatim>\<open>d[k]\<close>: raises KeyError when the key is absent.\<close>

definition getitem :: "('k, 'v) dict \<Rightarrow> 'k \<Rightarrow> py_error + 'v" where
  "getitem d k = (case map_of d k of None \<Rightarrow> Inl KeyError | Some v \<Rightarrow> Inr v)"

definition dict_keys :: "('k, 'v) dict \<Rightarrow> 'k list" where
  "dict_keys d = map fst d"

definition dict_values :: "('k, 'v) dict \<Rightarrow> 'v list" where
  "dict_values d = map snd d"

text \<open>\<^verbatim>\<open>xs[i]\<close> on a tuple or list, for a non-negative literal index.\<close>

definition index_at :: "'a list \<Rightarrow> nat \<Rightarrow> py_error + 'a" where
  "index_at xs i = (if i < length xs then Inr (xs ! i) else Inl IndexError)"

text \<open>
  \<^verbatim>\<open>x, = it\<close>: unpacking an iterable that must hold exactly one item; ValueError
  otherwise. \<open>unpack_set\<close> is the same on \<^verbatim>\<open>set(...)\<close>, where equal items count once.
\<close>

definition unpack_single :: "'a list \<Rightarrow> py_error + 'a" where
  "unpack_single xs = (case xs of [x] \<Rightarrow> Inr x | _ \<Rightarrow> Inl ValueError)"

definition unpack_set :: "'a list \<Rightarrow> py_error + 'a" where
  "unpack_set xs = unpack_single (remdups xs)"

definition py_assert :: "bool \<Rightarrow> py_error + unit" where
  "py_assert b = (if b then Inr () else Inl AssertionError)"

text \<open>Sequencing of computations that may raise: the first exception wins.\<close>

definition bindE :: "'e + 'a \<Rightarrow> ('a \<Rightarrow> 'e + 'b) \<Rightarrow> 'e + 'b" where
  "bindE r f = (case r of Inl e \<Rightarrow> Inl e | Inr x \<Rightarrow> f x)"

fun mapE :: "('a \<Rightarrow> 'e + 'b) \<Rightarrow> 'a list \<Rightarrow> 'e + 'b list" where
  "mapE f [] = Inr []"
| "mapE f (x # xs) = bindE (f x) (\<lambda>y. bindE (mapE f xs) (\<lambda>ys. Inr (y # ys)))"

text \<open>
  A dictionary built entry by entry from the items of another one, as the comprehension
  \<^verbatim>\<open>{k: f(k, v) for k, v in d.items()}\<close> and the loop
  \<^verbatim>\<open>for k, v in d.items(): out[k] = f(k, v)\<close> do.
\<close>

definition map_items :: "('k \<Rightarrow> 'v \<Rightarrow> 'e + 'w) \<Rightarrow> ('k, 'v) dict \<Rightarrow> 'e + ('k, 'w) dict" where
  "map_items f d = mapE (\<lambda>(k, v). bindE (f k v) (\<lambda>w. Inr (k, w))) d"

text \<open>
  Keys of the topological tables: a dimension is an integer on a simple cell and a tuple
  of integers on a tensor product cell; orientations are keyed the same way.
\<close>

datatype key = IntKey int | TupleKey "int list"

subsection \<open>The element and its reference cell\<close>

text \<open>
  The reference cell comes from FIAT. \<open>is_tensor_product\<close> is the outcome of
  \<^verbatim>\<open>isinstance(self.cell, FIAT.reference_element.TensorProductCell)\<close>, and
  \<open>cells_topology\<close> lists \<^verbatim>\<open>c.topology\<close> for every factor \<^verbatim>\<open>c\<close> of \<^verbatim>\<open>self.cell.cells\<close>.
\<close>

record reference_cell =
  is_tensor_product :: bool
  sub_entities :: "(key, (int, (key \<times> int) list) dict) dict"
  topology :: "(key, (int, int list) dict) dict"
  cells_topology :: "(key, (int, int list) dict) dict list"

datatype degree = Degree int | DegreeTuple "int list"

text \<open>
  The abstract members of the class are fields: \<^verbatim>\<open>entity_dofs()\<close> is a pure accessor,
  \<open>type_name\<close> is \<^verbatim>\<open>type(self).__name__\<close>.
\<close>

record element =
  type_name :: string
  cell :: reference_cell
  degree :: degree
  entity_dofs :: "(key, (int, int list) dict) dict"
  index_shape :: "int list"
  value_shape :: "int list"

subsection \<open>permutations\<close>

text \<open>\<^verbatim>\<open>n, = set(len(x) for x in d.values())\<close>\<close>

definition uniform_len :: "('k, 'a list) dict \<Rightarrow> py_error + nat" where
  "uniform_len d = unpack_set (map length (dict_values d))"

text \<open>\<^verbatim>\<open>len(dim)\<close>: an integer has no length.\<close>

definition key_len :: "key \<Rightarrow> py_error + nat" where
  "key_len k = (case k of IntKey i \<Rightarrow> Inl TypeError | TupleKey t \<Rightarrow> Inr (length t))"

text \<open>\<^verbatim>\<open>dim[i]\<close>, reached only after \<^verbatim>\<open>len(dim)\<close> has succeeded.\<close>

definition key_at :: "key \<Rightarrow> nat \<Rightarrow> py_error + key" where
  "key_at k i = (case k of IntKey j \<Rightarrow> Inl TypeError
                 | TupleKey t \<Rightarrow> bindE (index_at t i) (\<lambda>j. Inr (IntKey j)))"

text \<open>
  The body of the loop of the tensor product branch (lines 46 to 54): the table of one
  dimension, keyed by the pairs \<^verbatim>\<open>(i0, i1)\<close> in the order the two loops insert them.
\<close>

definition perm_table_product :: "reference_cell \<Rightarrow> key \<Rightarrow> (int, int list) dict
    \<Rightarrow> py_error + (key, nat list) dict" where
  "perm_table_product c dm dofs =
     bindE (uniform_len dofs) (\<lambda>n.
     let perm = [0..<n] in
     bindE (key_len dm) (\<lambda>l.
     bindE (py_assert (l = 2)) (\<lambda>_.
     bindE (index_at (cells_topology c) 0) (\<lambda>t0.
     bindE (key_at dm 0) (\<lambda>d0.
     bindE (getitem t0 d0) (\<lambda>cones0.
     bindE (uniform_len cones0) (\<lambda>m0.
     bindE (index_at (cells_topology c) 1) (\<lambda>t1.
     bindE (key_at dm 1) (\<lambda>d1.
     bindE (getitem t1 d1) (\<lambda>cones1.
     bindE (uniform_len cones1) (\<lambda>m1.
     Inr (concat (map (\<lambda>i0. map (\<lambda>i1. (TupleKey [int i0, int i1], perm)) [0..<fact m1 * 2])
                      [0..<fact m0 * 2])))))))))))))"

text \<open>The body of the loop of the other branch (lines 57 to 64).\<close>

definition perm_table_simple :: "reference_cell \<Rightarrow> key \<Rightarrow> (int, int list) dict
    \<Rightarrow> py_error + (key, nat list) dict" where
  "perm_table_simple c dm dofs =
     bindE (uniform_len dofs) (\<lambda>n.
     let perm = [0..<n] in
     if dm = IntKey 0 then Inr [(IntKey 0, perm)]
     else
       bindE (getitem (topology c) dm) (\<lambda>cones.
       bindE (uniform_len cones) (\<lambda>m.
       Inr (map (\<lambda>ori. (IntKey (int ori), perm)) [0..<fact m * 2]))))"

definition permutations :: "element \<Rightarrow> py_error + (key, (key, nat list) dict) dict" where
  "permutations el =
     (if is_tensor_product (cell el)
      then map_items (perm_table_product (cell el)) (entity_dofs el)
      else map_items (perm_table_simple (cell el)) (entity_dofs el))"

subsection \<open>fiat_equivalent\<close>

definition fiat_equivalent :: "element \<Rightarrow> py_error + 'a" where
  "fiat_equivalent el =
     Inl (NotImplementedError (''Cannot make equivalent FIAT element for '' @ type_name el))"

subsection \<open>The closure of an entity\<close>

text \<open>
  \<^verbatim>\<open>sorted(chain(*[entity_dofs[d][se] for d, se in sub_entities]))\<close>: the list
  comprehension is evaluated first, so a missing entry raises before anything is sorted.
\<close>

definition closure_of :: "(key, (int, int list) dict) dict \<Rightarrow> (key \<times> int) list
    \<Rightarrow> py_error + int list" where
  "closure_of ed subs =
     bindE (mapE (\<lambda>(d, se). bindE (getitem ed d) (\<lambda>m. getitem m se)) subs)
       (\<lambda>ls. Inr (sort (concat ls)))"

text \<open>The body of the cached property \<^verbatim>\<open>_entity_closure_dofs\<close>.\<close>

definition entity_closure_dofs_body :: "element \<Rightarrow> py_error + (key, (int, int list) dict) dict" where
  "entity_closure_dofs_body el =
     (let ed = entity_dofs el in
      map_items (\<lambda>dm entities. map_items (\<lambda>e subs. closure_of ed subs) entities)
        (sub_entities (cell el)))"

subsection \<open>Collaborators: GEM, quadrature, tabulation\<close>

text \<open>
  GEM expressions, as far as this class builds them. An index is an object: two indices
  are the same only if they were created by the same call of \<^verbatim>\<open>gem.Index\<close>, so each one
  carries the serial number of its creation. \<open>Extern\<close> stands for an expression that a
  collaborator hands over (a tabulation, a weight). The constructors of GEM may fold a node
  away (a sum over no index, say); the tree is kept here as the source writes it, and its
  value is whatever the evaluator returns for it.
\<close>

datatype index = Index (serial: nat) (extent: int)

datatype gem =
    Extern nat
  | Indexed gem "index list"
  | Product gem gem
  | IndexSum gem "index list"
  | ComponentTensor gem "index list"

record point_set =
  ps_name :: nat
  indices :: "index list"

record quadrature_rule =
  point_set :: point_set
  weight_expression :: gem

text \<open>
  A numpy float64, with the comparison \<^verbatim>\<open>a > b\<close> of IEEE 754: nothing is greater than
  a NaN and a NaN is greater than nothing.
\<close>

datatype float64 = Finite real | PosInf | NegInf | NaN

fun float_gt :: "float64 \<Rightarrow> float64 \<Rightarrow> bool" where
  "float_gt (Finite a) (Finite b) = (b < a)"
| "float_gt PosInf (Finite b) = True"
| "float_gt PosInf NegInf = True"
| "float_gt (Finite a) NegInf = True"
| "float_gt _ _ = False"

text \<open>
  The result of \<^verbatim>\<open>gem.interpreter.evaluate\<close> for one expression: \<open>arr\<close> is
  \<^verbatim>\<open>evaluation.arr.flatten()\<close>, \<open>fids\<close> the free indices left.
\<close>

record eval_result =
  arr :: "float64 list"
  fids :: "index list"

text \<open>
  What the element asks of its collaborators. They are parameters of the model:
  \<^verbatim>\<open>self.cell.construct_subelement\<close> (FIAT), \<^verbatim>\<open>finat.quadrature.make_quadrature\<close>,
  \<^verbatim>\<open>self.basis_evaluation\<close> (abstract in this class) and \<^verbatim>\<open>gem.interpreter.evaluate\<close>.
  Each one either returns or raises.
\<close>

record 'c collaborators =
  construct_subelement :: "key \<Rightarrow> py_error + 'c"
  make_quadrature :: "'c \<Rightarrow> degree \<Rightarrow> py_error + quadrature_rule"
  basis_evaluation :: "nat \<Rightarrow> point_set \<Rightarrow> key \<times> int \<Rightarrow> py_error + (key, gem) dict"
  evaluate :: "gem list \<Rightarrow> py_error + eval_result list"

text \<open>The calls, as a probe on the collaborators would record them.\<close>

datatype 'c call =
    EntityDofsCall
  | GetIndicesCall
  | GetValueIndicesCall
  | ConstructSubelementCall key
  | MakeQuadratureCall 'c degree
  | BasisEvaluationCall nat point_set "key \<times> int"
  | EvaluateCall "gem list"

subsection \<open>State: the call log, the index counter and the caches of the instance\<close>

record 'c state =
  calls :: "'c call list"
  next_index :: nat
  closure_cache :: "(key, (int, int list) dict) dict option"
  support_cache :: "(key, (int, nat list) dict) dict option"

definition new_instance :: "'c state" where
  "new_instance = \<lparr>calls = [], next_index = 0, closure_cache = None, support_cache = None\<rparr>"

type_synonym ('c, 'a) action = "'c state \<Rightarrow> (py_error + 'a) \<times> 'c state"

definition ret :: "'a \<Rightarrow> ('c, 'a) action" where
  "ret x s = (Inr x, s)"

definition bind :: "('c, 'a) action \<Rightarrow> ('a \<Rightarrow> ('c, 'b) action) \<Rightarrow> ('c, 'b) action" where
  "bind m f s = (case m s of (Inl e, s') \<Rightarrow> (Inl e, s') | (Inr x, s') \<Rightarrow> f x s')"

text \<open>A step that cannot touch the state: it returns or raises.\<close>

definition lift :: "py_error + 'a \<Rightarrow> ('c, 'a) action" where
  "lift r s = (r, s)"

text \<open>A call of a collaborator: logged, then its outcome.\<close>

definition call :: "'c call \<Rightarrow> py_error + 'a \<Rightarrow> ('c, 'a) action" where
  "call c r s = (r, s\<lparr>calls := calls s @ [c]\<rparr>)"

text \<open>
  \<^verbatim>\<open>for k in ks: out[k] = f(k)\<close>: the dictionary filled key by key; an exception leaves
  the loop with what was logged so far.
\<close>

fun for_keys :: "('k \<Rightarrow> ('c, 'v) action) \<Rightarrow> 'k list \<Rightarrow> ('c, ('k, 'v) dict) action" where
  "for_keys f [] = ret []"
| "for_keys f (k # ks) = bind (f k) (\<lambda>v. bind (for_keys f ks) (\<lambda>rest. ret ((k, v) # rest)))"

subsection \<open>entity_closure_dofs\<close>

text \<open>
  Modelled from the spec: \<^verbatim>\<open>gem.utils.cached_property\<close> is not part of this file. The
  spec describes it as a cache field of the instance that is empty until the first access,
  which runs the body and stores what it returns; an exception of the body stores nothing.
\<close>

definition entity_closure_dofs :: "element \<Rightarrow> ('c, (key, (int, int list) dict) dict) action" where
  "entity_closure_dofs el s =
     (case closure_cache s of
        Some r \<Rightarrow> (Inr r, s)
      | None \<Rightarrow>
          (case call EntityDofsCall (entity_closure_dofs_body el) s of
             (Inl e, s') \<Rightarrow> (Inl e, s')
           | (Inr r, s') \<Rightarrow> (Inr r, s'\<lparr>closure_cache := Some r\<rparr>)))"

subsection \<open>entity_support_dofs\<close>

text \<open>\<^verbatim>\<open>tuple(gem.Index(extent=d) for d in shape)\<close>: one fresh index per entry.\<close>

definition fresh_indices :: "nat \<Rightarrow> int list \<Rightarrow> index list" where
  "fresh_indices n shape = map (\<lambda>(i, d). Index i d) (zip [n..<n + length shape] shape)"

definition make_indices :: "'c call \<Rightarrow> int list \<Rightarrow> ('c, index list) action" where
  "make_indices c shape s =
     (Inr (fresh_indices (next_index s) shape),
      s\<lparr>calls := calls s @ [c], next_index := next_index s + length shape\<rparr>)"

definition get_indices :: "element \<Rightarrow> ('c, index list) action" where
  "get_indices el = make_indices GetIndicesCall (index_shape el)"

definition get_value_indices :: "element \<Rightarrow> ('c, index list) action" where
  "get_value_indices el = make_indices GetValueIndicesCall (value_shape el)"

text \<open>
  \<^verbatim>\<open>(2*numpy.array(self.degree)).tolist()\<close>: every component doubled. Degrees are
  polynomial degrees, far from the width of a numpy integer.
\<close>

definition double_degree :: "degree \<Rightarrow> degree" where
  "double_degree d =
     (case d of Degree n \<Rightarrow> Degree (2 * n) | DegreeTuple ns \<Rightarrow> DegreeTuple (map (\<lambda>n. 2 * n) ns))"

text \<open>\<^verbatim>\<open>eps = 1.e-8\<close>: the double nearest to it, \<^verbatim>\<open>0x1.5798ee2308c3ap-27\<close>.\<close>

definition eps :: float64 where
  "eps = Finite (3022314549036573 / 2 ^ 78)"

text \<open>The expression of lines 99 to 104, wrapped as line 105 does.\<close>

definition integral_expr :: "gem \<Rightarrow> index list \<Rightarrow> index list \<Rightarrow> quadrature_rule \<Rightarrow> gem" where
  "integral_expr vals beta zeta quad =
     ComponentTensor
       (IndexSum
          (Product (IndexSum (Product (Indexed vals (beta @ zeta)) (Indexed vals (beta @ zeta))) zeta)
                   (weight_expression quad))
          (indices (point_set quad)))
       beta"

text \<open>\<^verbatim>\<open>[dof for dof, i in enumerate(ints) if i > eps]\<close>\<close>

definition above_eps :: "float64 list \<Rightarrow> nat list" where
  "above_eps ints = filter (\<lambda>dof. float_gt (ints ! dof) eps) [0..<length ints]"

text \<open>The body of the loop over the entities of one dimension (lines 96 to 108).\<close>

definition support_of_entity :: "'c collaborators \<Rightarrow> key \<Rightarrow> index list \<Rightarrow> index list
    \<Rightarrow> quadrature_rule \<Rightarrow> int \<Rightarrow> ('c, nat list) action" where
  "support_of_entity env entity_dim beta zeta quad f =
     bind (call (BasisEvaluationCall 0 (point_set quad) (entity_dim, f))
             (basis_evaluation env 0 (point_set quad) (entity_dim, f))) (\<lambda>tab.
     bind (lift (unpack_single (dict_values tab))) (\<lambda>vals.
     bind (call (EvaluateCall [integral_expr vals beta zeta quad])
             (evaluate env [integral_expr vals beta zeta quad])) (\<lambda>res.
     bind (lift (unpack_single res)) (\<lambda>evaluation.
     bind (lift (py_assert (fids evaluation = []))) (\<lambda>_.
     ret (above_eps (arr evaluation)))))))"

text \<open>The body of the loop over the dimensions (lines 86 to 110).\<close>

definition support_of_dim :: "'c collaborators \<Rightarrow> element \<Rightarrow> key
    \<Rightarrow> ('c, (int, nat list) dict) action" where
  "support_of_dim env el entity_dim =
     bind (get_indices el) (\<lambda>beta.
     bind (get_value_indices el) (\<lambda>zeta.
     bind (call (ConstructSubelementCall entity_dim) (construct_subelement env entity_dim))
       (\<lambda>entity_cell.
     bind (call (MakeQuadratureCall entity_cell (double_degree (degree el)))
             (make_quadrature env entity_cell (double_degree (degree el)))) (\<lambda>quad.
     bind (call EntityDofsCall (getitem (entity_dofs el) entity_dim)) (\<lambda>entities.
     for_keys (support_of_entity env entity_dim beta zeta quad) (dict_keys entities))))))"

text \<open>The body of the cached property \<^verbatim>\<open>_entity_support_dofs\<close>.\<close>

definition entity_support_dofs_body :: "'c collaborators \<Rightarrow> element
    \<Rightarrow> ('c, (key, (int, nat list) dict) dict) action" where
  "entity_support_dofs_body env el = for_keys (support_of_dim env el) (dict_keys (sub_entities (cell el)))"

text \<open>
  Modelled from the spec: the cache of \<^verbatim>\<open>gem.utils.cached_property\<close>, as for
  \<open>entity_closure_dofs\<close>.
\<close>

definition entity_support_dofs :: "'c collaborators \<Rightarrow> element
    \<Rightarrow> ('c, (key, (int, nat list) dict) dict) action" where
  "entity_support_dofs env el s =
     (case support_cache s of
        Some r \<Rightarrow> (Inr r, s)
      | None \<Rightarrow>
          (case entity_support_dofs_body env el s of
             (Inl e, s') \<Rightarrow> (Inl e, s')
           | (Inr r, s') \<Rightarrow> (Inr r, s'\<lparr>support_cache := Some r\<rparr>)))"

subsection \<open>Reading the tables\<close>

text \<open>\<^verbatim>\<open>t[d][e]\<close> where both keys are present.\<close>

definition entry :: "('d, ('e, 'v) dict) dict \<Rightarrow> 'd \<times> 'e \<Rightarrow> 'v option" where
  "entry t p = (case map_of t (fst p) of None \<Rightarrow> None | Some m \<Rightarrow> map_of m (snd p))"

text \<open>
  The sub-entity relation is transitively closed: whatever is listed for a sub-entity of
  \<open>(d1, e1)\<close> is listed for \<open>(d1, e1)\<close> too.
\<close>

definition transitively_closed :: "reference_cell \<Rightarrow> bool" where
  "transitively_closed c =
     list_all (\<lambda>(d1, es). list_all (\<lambda>(e1, s1).
         list_all (\<lambda>p. case entry (sub_entities c) p of
                          None \<Rightarrow> True
                        | Some s2 \<Rightarrow> list_all (\<lambda>q. q \<in> set s1) s2) s1) es)
       (sub_entities c)"



subsection \<open>An example: the quadratic Lagrange element on the reference interval\<close>

definition interval :: reference_cell where
  "interval = \<lparr>
     is_tensor_product = False,
     sub_entities =
       [(IntKey 0, [(0, [(IntKey 0, 0)]), (1, [(IntKey 0, 1)])]),
        (IntKey 1, [(0, [(IntKey 0, 0), (IntKey 0, 1), (IntKey 1, 0)])])],
     topology =
       [(IntKey 0, [(0, [0]), (1, [1])]),
        (IntKey 1, [(0, [0, 1])])],
     cells_topology = []\<rparr>"

definition p2_interval :: element where
  "p2_interval = \<lparr>
     type_name = ''Lagrange'',
     cell = interval,
     degree = Degree 2,
     entity_dofs =
       [(IntKey 0, [(0, [0]), (1, [1])]),
        (IntKey 1, [(0, [2])])],
     index_shape = [3],
     value_shape = []\<rparr>"


subsection \<open>An interval whose edge lists a vertex twice\<close>



subsection \<open>An element with one id on a vertex and two on the other\<close>

definition p2_interval_uneven :: element where
  "p2_interval_uneven = p2_interval \<lparr>
     entity_dofs := [(IntKey 0, [(0, [0]), (1, [1, 2])]), (IntKey 1, [(0, [3])])],
     index_shape := [4]\<rparr>"

subsection \<open>Reading the call log\<close>


subsection \<open>Stub collaborators for the quadratic element on the interval\<close>

text \<open>
  Collaborators that answer every call with fixed data: the sub-cell of a dimension is
  named by the dimension, the tabulation on entity \<open>(d, f)\<close> is an opaque expression with
  a tag, and the evaluator returns a fixed array for each tag. The arrays are the integrals
  of the squared quadratic Lagrange basis on the two vertices and on the edge, except that
  the first entry at vertex 1 is set to the tolerance itself.
\<close>

fun extern_tag :: "gem \<Rightarrow> nat" where
  "extern_tag (Extern n) = n"
| "extern_tag (Indexed e js) = extern_tag e"
| "extern_tag (Product a b) = extern_tag a"
| "extern_tag (IndexSum e js) = extern_tag e"
| "extern_tag (ComponentTensor e js) = extern_tag e"

definition stub_integrals :: "nat \<Rightarrow> float64 list" where
  "stub_integrals tag =
     (if tag = 1 then [Finite 1, Finite 0, Finite 0]
      else if tag = 2 then [eps, Finite 1, Finite 0]
      else [Finite (2 / 15), Finite (2 / 15), Finite (8 / 15)])"

definition stub_env :: "key collaborators" where
  "stub_env = \<lparr>
     construct_subelement = (\<lambda>d. Inr d),
     make_quadrature = (\<lambda>c deg. Inr \<lparr>point_set = \<lparr>ps_name = 0, indices = [Index 1000 3]\<rparr>,
                                       weight_expression = Extern 0\<rparr>),
     basis_evaluation = (\<lambda>order ps (d, f).
        Inr [(TupleKey [0], Extern (if d = IntKey 0 then nat f + 1 else 3))]),
     evaluate = (\<lambda>es. Inr (map (\<lambda>e. \<lparr>arr = stub_integrals (extern_tag e), fids = []\<rparr>) es))\<rparr>"

section \<open>Properties\<close>

subsection \<open>Exceptions and dictionaries\<close>

lemma bindE_simps [simp]:
  "bindE (Inl e) f = Inl e" "bindE (Inr x) f = f x"
  by (simp_all add: bindE_def)

lemma bindE_eq_Inr: "bindE r f = Inr y \<longleftrightarrow> (\<exists>x. r = Inr x \<and> f x = Inr y)"
  by (cases r) simp_all

lemma mapE_fails: "x \<in> set xs \<Longrightarrow> f x = Inl e \<Longrightarrow> \<exists>e'. mapE f xs = Inl e'"
proof (induction xs)
  case Nil
  then show ?case by simp
next
  case (Cons a xs)
  then show ?case
    by (cases "f a"; cases "mapE f xs") auto
qed

lemma mapE_Inl_source: "mapE f xs = Inl e \<Longrightarrow> \<exists>x \<in> set xs. f x = Inl e"
proof (induction xs)
  case Nil
  then show ?case by simp
next
  case (Cons a xs)
  then show ?case
    by (cases "f a"; cases "mapE f xs") auto
qed

lemma map_items_lookup:
  assumes "map_items f d = Inr r" and "map_of d k = Some v"
  shows "\<exists>w. f k v = Inr w \<and> map_of r k = Some w"
  using assms unfolding map_items_def
proof (induction d arbitrary: r)
  case Nil
  then show ?case by simp
next
  case (Cons a d)
  obtain k' v' where a: "a = (k', v')" by (cases a)
  from Cons.prems(1) obtain w' r' where
    w': "f k' v' = Inr w'" and r': "mapE (\<lambda>(k, v). bindE (f k v) (\<lambda>w. Inr (k, w))) d = Inr r'"
    and r: "r = (k', w') # r'"
    by (auto simp: a bindE_eq_Inr)
  show ?case
  proof (cases "k = k'")
    case True
    with Cons.prems(2) a w' r show ?thesis by simp
  next
    case False
    with Cons.prems(2) a have "map_of d k = Some v" by simp
    from Cons.IH [OF r' this] False r show ?thesis by simp
  qed
qed

lemma map_items_keys: "map_items f d = Inr r \<Longrightarrow> map fst r = map fst d"
  unfolding map_items_def
proof (induction d arbitrary: r)
  case Nil
  then show ?case by simp
next
  case (Cons a d)
  then show ?case by (cases a) (auto simp: bindE_eq_Inr)
qed

subsection \<open>The closure table\<close>

lemma getitem_eq_Inr: "getitem d k = Inr v \<longleftrightarrow> map_of d k = Some v"
  by (simp add: getitem_def split: option.splits)

lemma getitem_eq_Inl: "getitem d k = Inl e \<longleftrightarrow> e = KeyError \<and> map_of d k = None"
  by (auto simp: getitem_def split: option.splits)

lemma lookup_pair_entry:
  "(case p of (d, se) \<Rightarrow> bindE (getitem ed d) (\<lambda>m. getitem m se))
     = (case entry ed p of None \<Rightarrow> Inl KeyError | Some v \<Rightarrow> Inr v)"
  by (cases p) (simp add: entry_def getitem_def split: option.splits)

lemma mapE_entry_those:
  "mapE (\<lambda>p. case entry ed p of None \<Rightarrow> Inl KeyError | Some v \<Rightarrow> Inr v) subs = Inr ls
     \<longleftrightarrow> those (map (entry ed) subs) = Some ls"
proof (induction subs arbitrary: ls)
  case Nil
  then show ?case by auto
next
  case (Cons p subs)
  show ?case
    by (cases "entry ed p") (auto simp: bindE_eq_Inr Cons.IH split: option.splits)
qed

lemma mapE_lookup_those:
  "mapE (\<lambda>(d, se). bindE (getitem ed d) (\<lambda>m. getitem m se)) subs = Inr ls
     \<longleftrightarrow> those (map (entry ed) subs) = Some ls"
proof -
  have "(\<lambda>(d, se). bindE (getitem ed d) (\<lambda>m. getitem m se))
          = (\<lambda>p. case entry ed p of None \<Rightarrow> Inl KeyError | Some v \<Rightarrow> Inr v)"
    by (rule ext) (simp only: lookup_pair_entry)
  then show ?thesis by (simp only: mapE_entry_those)
qed

lemma closure_of_eq_Inr:
  "closure_of ed subs = Inr c
     \<longleftrightarrow> (\<exists>ls. those (map (entry ed) subs) = Some ls \<and> c = sort (concat ls))"
  by (auto simp: closure_of_def bindE_eq_Inr mapE_lookup_those)

lemma closure_of_raises:
  assumes "closure_of ed subs = Inl err"
  shows "err = KeyError \<and> (\<exists>p \<in> set subs. entry ed p = None)"
proof -
  from assms have "mapE (\<lambda>(d, se). bindE (getitem ed d) (\<lambda>m. getitem m se)) subs = Inl err"
    by (cases "mapE (\<lambda>(d, se). bindE (getitem ed d) (\<lambda>m. getitem m se)) subs")
       (simp_all add: closure_of_def)
  from mapE_Inl_source [OF this] obtain p where "p \<in> set subs"
    and "(case p of (d, se) \<Rightarrow> bindE (getitem ed d) (\<lambda>m. getitem m se)) = Inl err"
    by blast
  then show ?thesis
    unfolding lookup_pair_entry by (auto split: option.splits)
qed

lemma map_items_raises:
  assumes "map_items f d = Inl err"
  shows "\<exists>k v. (k, v) \<in> set d \<and> f k v = Inl err"
proof -
  from mapE_Inl_source [OF assms [unfolded map_items_def]] obtain k v where
    "(k, v) \<in> set d" and "bindE (f k v) (\<lambda>w. Inr (k, w)) = Inl err"
    by auto
  then have "(k, v) \<in> set d \<and> f k v = Inl err"
    by (cases "f k v") simp_all
  then show ?thesis by blast
qed

text \<open>
  The body of \<^verbatim>\<open>_entity_closure_dofs\<close> raises nothing but KeyError, and it returns when
  every pair listed in \<^verbatim>\<open>cell.sub_entities\<close> has its entry in \<^verbatim>\<open>entity_dofs()\<close>.
\<close>

lemma entity_closure_dofs_body_raises:
  assumes "entity_closure_dofs_body el = Inl err"
  shows "err = KeyError
         \<and> (\<exists>d es e subs p. (d, es) \<in> set (sub_entities (cell el)) \<and> (e, subs) \<in> set es
               \<and> p \<in> set subs \<and> entry (entity_dofs el) p = None)"
proof -
  from assms have "map_items (\<lambda>d es. map_items (\<lambda>e subs. closure_of (entity_dofs el) subs) es)
      (sub_entities (cell el)) = Inl err"
    by (simp add: entity_closure_dofs_body_def)
  from map_items_raises [OF this] obtain d es where des: "(d, es) \<in> set (sub_entities (cell el))"
    and "map_items (\<lambda>e subs. closure_of (entity_dofs el) subs) es = Inl err"
    by blast
  from map_items_raises [OF this(2)] obtain e subs where es: "(e, subs) \<in> set es"
    and "closure_of (entity_dofs el) subs = Inl err"
    by blast
  from closure_of_raises [OF this(2)] des es show ?thesis by blast
qed

lemma entity_closure_dofs_body_returns:
  assumes "list_all (\<lambda>(d, es). list_all (\<lambda>(e, subs).
              list_all (\<lambda>p. entry (entity_dofs el) p \<noteq> None) subs) es)
            (sub_entities (cell el))"
  shows "\<exists>r. entity_closure_dofs_body el = Inr r"
proof (cases "entity_closure_dofs_body el")
  case (Inr r)
  then show ?thesis by blast
next
  case (Inl err)
  from entity_closure_dofs_body_raises [OF this] obtain d es e subs p where
    "(d, es) \<in> set (sub_entities (cell el))" and "(e, subs) \<in> set es"
    and "p \<in> set subs" and "entry (entity_dofs el) p = None"
    by blast
  with assms have False
    by (fastforce simp: list_all_iff)
  then show ?thesis ..
qed

lemma table_lookup:
  assumes "map_items (\<lambda>d m. map_items (\<lambda>e. f) m) t = Inr r" and "entry t (d, e) = Some v"
  shows "\<exists>w. f v = Inr w \<and> entry r (d, e) = Some w"
proof -
  from assms(2) obtain m where m: "map_of t d = Some m" and v: "map_of m e = Some v"
    by (auto simp: entry_def split: option.splits)
  from map_items_lookup [OF assms(1) m] obtain m' where
    m': "map_items (\<lambda>e. f) m = Inr m'" and r: "map_of r d = Some m'"
    by blast
  from map_items_lookup [OF m' v] obtain w where "f v = Inr w" and "map_of m' e = Some w"
    by blast
  with r show ?thesis by (auto simp: entry_def)
qed

lemma closure_fresh:
  "closure_cache s = None \<Longrightarrow> fst (entity_closure_dofs el s) = entity_closure_dofs_body el"
  by (cases "entity_closure_dofs_body el") (simp_all add: entity_closure_dofs_def call_def)

lemma closure_table_entry:
  assumes "closure_cache s = None"
    and "fst (entity_closure_dofs el s) = Inr r"
    and "entry (sub_entities (cell el)) (d, e) = Some subs"
  shows "\<exists>ls. those (map (entry (entity_dofs el)) subs) = Some ls
              \<and> entry r (d, e) = Some (sort (concat ls))"
proof -
  from assms(1,2) have "entity_closure_dofs_body el = Inr r" by (simp add: closure_fresh)
  then have "map_items (\<lambda>d m. map_items (\<lambda>e. closure_of (entity_dofs el)) m)
               (sub_entities (cell el)) = Inr r"
    by (simp add: entity_closure_dofs_body_def)
  from table_lookup [OF this assms(3)] show ?thesis
    by (auto simp: closure_of_eq_Inr)
qed

text \<open>
  C2. Whenever \<^verbatim>\<open>entity_closure_dofs()\<close> returns a table \<open>r\<close> on an instance whose cache
  is empty, and
  \<^verbatim>\<open>cell.sub_entities[d][e]\<close> is the list \<open>subs\<close>, every pair of \<open>subs\<close> has its entry in
  \<^verbatim>\<open>entity_dofs()\<close> and \<open>r[d][e]\<close> is the ascending sort of the concatenation of these
  entries, taken in the order of \<open>subs\<close>.
\<close>

theorem closure_dofs_sorted_concat:
  assumes "closure_cache s = None"
    and "fst (entity_closure_dofs el s) = Inr r"
    and "entry (sub_entities (cell el)) (d, e) = Some subs"
  shows "\<exists>ls. those (map (entry (entity_dofs el)) subs) = Some ls
              \<and> entry r (d, e) = Some (sort (concat ls))"
  using assms by (rule closure_table_entry)

theorem closure_dofs_sorted_concat_witness:
  "closure_cache (new_instance :: unit state) = None
   \<and> fst (entity_closure_dofs p2_interval (new_instance :: unit state))
     = Inr [(IntKey 0, [(0, [0]), (1, [1])]), (IntKey 1, [(0, [0, 1, 2])])]
   \<and> entry (sub_entities (cell p2_interval)) (IntKey 1, 0)
       = Some [(IntKey 0, 0), (IntKey 0, 1), (IntKey 1, 0)]
   \<and> (\<exists>ls. those (map (entry (entity_dofs p2_interval))
                     [(IntKey 0, 0), (IntKey 0, 1), (IntKey 1, 0)]) = Some ls
           \<and> entry [(IntKey 0, [(0::int, [0]), (1, [1])]), (IntKey 1, [(0, [0, 1, 2])])] (IntKey 1, 0)
               = Some (sort (concat ls)))"
proof -
  have n: "closure_cache (new_instance :: unit state) = None"
    by (simp add: new_instance_def)
  have r: "fst (entity_closure_dofs p2_interval (new_instance :: unit state))
     = Inr [(IntKey 0, [(0, [0]), (1, [1])]), (IntKey 1, [(0, [0, 1, 2])])]"
    by (simp add: closure_fresh n entity_closure_dofs_body_def map_items_def closure_of_def getitem_def
        p2_interval_def interval_def)
  have s: "entry (sub_entities (cell p2_interval)) (IntKey 1, 0)
       = Some [(IntKey 0, 0), (IntKey 0, 1), (IntKey 1, 0)]"
    by (simp add: entry_def p2_interval_def interval_def)
  show ?thesis
    by (intro conjI n r s closure_dofs_sorted_concat [OF n r s])
qed

subsection \<open>Monotonicity of the closure\<close>

lemma entry_SomeD:
  "entry t (d, e) = Some v \<Longrightarrow> \<exists>m. map_of t d = Some m \<and> map_of m e = Some v"
  by (auto simp: entry_def split: option.splits)

lemma transitively_closedD:
  assumes "transitively_closed c" and "entry (sub_entities c) (d1, e1) = Some s1"
    and "p \<in> set s1" and "entry (sub_entities c) p = Some s2"
  shows "set s2 \<subseteq> set s1"
proof -
  from entry_SomeD [OF assms(2)] obtain es where
    es: "map_of (sub_entities c) d1 = Some es" and s1: "map_of es e1 = Some s1"
    by blast
  from es have "(d1, es) \<in> set (sub_entities c)" by (rule map_of_SomeD)
  moreover from s1 have "(e1, s1) \<in> set es" by (rule map_of_SomeD)
  ultimately have "list_all (\<lambda>p. case entry (sub_entities c) p of
                      None \<Rightarrow> True | Some s2 \<Rightarrow> list_all (\<lambda>q. q \<in> set s1) s2) s1"
    using assms(1) unfolding transitively_closed_def list_all_iff by fastforce
  with assms(3,4) have "list_all (\<lambda>q. q \<in> set s1) s2"
    unfolding list_all_iff by fastforce
  then show ?thesis by (auto simp: list_all_iff)
qed

lemma those_concat_member:
  assumes "those (map g xs) = Some ls"
  shows "y \<in> set (concat ls) \<longleftrightarrow> (\<exists>x \<in> set xs. \<exists>l. g x = Some l \<and> y \<in> set l)"
  using assms
proof (induction xs arbitrary: ls)
  case Nil
  then show ?case by simp
next
  case (Cons x xs)
  then show ?case by (auto split: option.splits)
qed


text \<open>
  C3. On a cell whose sub-entity relation is transitively closed, whenever
  \<^verbatim>\<open>entity_closure_dofs()\<close> returns a table \<open>r\<close> and \<open>(d2, e2)\<close> is listed among the
  sub-entities of \<open>(d1, e1)\<close>, the ids of \<open>r[d2][e2]\<close> are ids of \<open>r[d1][e1]\<close>. The
  order of the two dimensions plays no part.
\<close>

theorem closure_dofs_monotone:
  assumes "closure_cache s = None"
    and "fst (entity_closure_dofs el s) = Inr r"
    and "transitively_closed (cell el)"
    and "entry (sub_entities (cell el)) (d1, e1) = Some s1"
    and "(d2, e2) \<in> set s1"
    and "entry (sub_entities (cell el)) (d2, e2) = Some s2"
  shows "\<exists>c1 c2. entry r (d1, e1) = Some c1 \<and> entry r (d2, e2) = Some c2 \<and> set c2 \<subseteq> set c1"
proof -
  from closure_table_entry [OF assms(1,2,4)] obtain ls1 where
    ls1: "those (map (entry (entity_dofs el)) s1) = Some ls1"
    and c1: "entry r (d1, e1) = Some (sort (concat ls1))"
    by blast
  from closure_table_entry [OF assms(1,2,6)] obtain ls2 where
    ls2: "those (map (entry (entity_dofs el)) s2) = Some ls2"
    and c2: "entry r (d2, e2) = Some (sort (concat ls2))"
    by blast
  have sub: "set s2 \<subseteq> set s1"
    by (rule transitively_closedD [OF assms(3,4,5,6)])
  have "set (concat ls2) \<subseteq> set (concat ls1)"
  proof
    fix y
    assume "y \<in> set (concat ls2)"
    then obtain x l where "x \<in> set s2" and "entry (entity_dofs el) x = Some l" and "y \<in> set l"
      unfolding those_concat_member [OF ls2] by blast
    with sub show "y \<in> set (concat ls1)"
      unfolding those_concat_member [OF ls1] by blast
  qed
  with c1 c2 show ?thesis by simp
qed

theorem closure_dofs_monotone_witness:
  "closure_cache (new_instance :: unit state) = None
   \<and> fst (entity_closure_dofs p2_interval (new_instance :: unit state))
     = Inr [(IntKey 0, [(0, [0]), (1, [1])]), (IntKey 1, [(0, [0, 1, 2])])]
   \<and> transitively_closed (cell p2_interval)
   \<and> entry (sub_entities (cell p2_interval)) (IntKey 1, 0)
       = Some [(IntKey 0, 0), (IntKey 0, 1), (IntKey 1, 0)]
   \<and> (IntKey 0, 1) \<in> set [(IntKey 0, 0), (IntKey 0, 1), (IntKey 1, 0::int)]
   \<and> entry (sub_entities (cell p2_interval)) (IntKey 0, 1) = Some [(IntKey 0, 1)]
   \<and> (\<exists>c1 c2. entry [(IntKey 0, [(0::int, [0::int]), (1, [1])]), (IntKey 1, [(0, [0, 1, 2])])]
                  (IntKey 1, 0) = Some c1
             \<and> entry [(IntKey 0, [(0::int, [0::int]), (1, [1])]), (IntKey 1, [(0, [0, 1, 2])])]
                  (IntKey 0, 1) = Some c2
             \<and> set c2 \<subseteq> set c1)"
proof -
  have n: "closure_cache (new_instance :: unit state) = None"
    by (simp add: new_instance_def)
  have r: "fst (entity_closure_dofs p2_interval (new_instance :: unit state))
     = Inr [(IntKey 0, [(0, [0]), (1, [1])]), (IntKey 1, [(0, [0, 1, 2])])]"
    by (simp add: closure_fresh n entity_closure_dofs_body_def map_items_def closure_of_def getitem_def
        p2_interval_def interval_def)
  have t: "transitively_closed (cell p2_interval)"
    by (simp add: transitively_closed_def entry_def p2_interval_def interval_def)
  have s1: "entry (sub_entities (cell p2_interval)) (IntKey 1, 0)
       = Some [(IntKey 0, 0), (IntKey 0, 1), (IntKey 1, 0)]"
    by (simp add: entry_def p2_interval_def interval_def)
  have m: "(IntKey 0, 1) \<in> set [(IntKey 0, 0), (IntKey 0, 1), (IntKey 1, 0::int)]"
    by simp
  have s2: "entry (sub_entities (cell p2_interval)) (IntKey 0, 1) = Some [(IntKey 0, 1)]"
    by (simp add: entry_def p2_interval_def interval_def)
  show ?thesis
    by (intro conjI n r t s1 m s2 closure_dofs_monotone [OF n r t s1 m s2])
qed

subsection \<open>Disjoint tables\<close>








subsection \<open>The closure of an entity has no duplicate\<close>




subsection \<open>The orientation tables\<close>

lemma unpack_single_eq_Inr: "unpack_single xs = Inr x \<longleftrightarrow> xs = [x]"
  by (auto simp: unpack_single_def split: list.splits)

lemma unpack_single_eq_Inl: "unpack_single xs = Inl e \<longleftrightarrow> e = ValueError \<and> (\<forall>x. xs \<noteq> [x])"
  by (auto simp: unpack_single_def split: list.splits)

lemma remdups_singleton: "remdups xs = [x] \<longleftrightarrow> set xs = {x}"
proof
  assume "remdups xs = [x]"
  then have "set (remdups xs) = {x}" by simp
  then show "set xs = {x}" by simp
next
  assume s: "set xs = {x}"
  then have "set (remdups xs) = {x}" by simp
  moreover have "distinct (remdups xs)" by simp
  ultimately have "length (remdups xs) = 1"
    using distinct_card [of "remdups xs"] by simp
  then obtain y where "remdups xs = [y]"
    by (cases "remdups xs") auto
  with s show "remdups xs = [x]"
    by (metis \<open>set (remdups xs) = {x}\<close> list.set_intros(1) singletonD)
qed

lemma uniform_len_eq_Inr:
  "uniform_len d = Inr n \<longleftrightarrow> d \<noteq> [] \<and> list_all (\<lambda>l. length l = n) (dict_values d)"
proof -
  have "set (map length (dict_values d)) = {n}
          \<longleftrightarrow> d \<noteq> [] \<and> (\<forall>l \<in> set (dict_values d). length l = n)"
  proof (cases d)
    case Nil
    then show ?thesis by (simp add: dict_values_def)
  next
    case (Cons a d')
    then show ?thesis by (auto simp: dict_values_def)
  qed
  then show ?thesis
    by (simp add: uniform_len_def unpack_set_def unpack_single_eq_Inr remdups_singleton
        list_all_iff)
qed

lemma uniform_len_mismatch:
  assumes "(e1, l1) \<in> set d" and "(e2, l2) \<in> set d" and "length l1 \<noteq> length l2"
  shows "uniform_len d = Inl ValueError"
proof (cases "uniform_len d")
  case (Inl e)
  then show ?thesis
    by (simp add: uniform_len_def unpack_set_def unpack_single_eq_Inl)
next
  case (Inr n)
  then have "list_all (\<lambda>l. length l = n) (dict_values d)"
    by (simp add: uniform_len_eq_Inr)
  moreover from assms(1,2) have "l1 \<in> set (dict_values d)" and "l2 \<in> set (dict_values d)"
    by (force simp: dict_values_def)+
  ultimately have "length l1 = n" and "length l2 = n"
    by (simp_all add: list_all_iff)
  with assms(3) have False by simp
  then show ?thesis ..
qed

lemma perm_table_simple_vertex:
  "perm_table_simple c (IntKey 0) dofs = Inr tbl
     \<longleftrightarrow> (\<exists>n. uniform_len dofs = Inr n \<and> tbl = [(IntKey 0, [0..<n])])"
  by (auto simp: perm_table_simple_def bindE_eq_Inr)

lemma perm_table_simple_other:
  assumes "d \<noteq> IntKey 0"
  shows "perm_table_simple c d dofs = Inr tbl
     \<longleftrightarrow> (\<exists>n cones m. uniform_len dofs = Inr n \<and> map_of (topology c) d = Some cones
            \<and> uniform_len cones = Inr m
            \<and> tbl = map (\<lambda>ori. (IntKey (int ori), [0..<n])) [0..<fact m * 2])"
  using assms by (auto simp: perm_table_simple_def bindE_eq_Inr getitem_eq_Inr)

text \<open>
  C5 (as amended). On a cell that is not a tensor product, whenever \<^verbatim>\<open>permutations()\<close>
  returns a table \<open>pd\<close> and \<open>d\<close> is a dimension of \<^verbatim>\<open>entity_dofs()\<close> other than 0, the
  entities of dimension \<open>d\<close> have a uniform number \<open>n\<close> of ids and a uniform number \<open>m\<close>
  of entries in \<^verbatim>\<open>cell.topology[d]\<close>, and \<open>pd[d]\<close> has exactly the keys
  \<open>0, ..., factorial(m) * 2 - 1\<close>, each once, and every value is \<open>[0, ..., n - 1]\<close>.
\<close>

theorem permutations_shape:
  assumes "\<not> is_tensor_product (cell el)"
    and "permutations el = Inr pd"
    and "map_of (entity_dofs el) d = Some dofs"
    and "d \<noteq> IntKey 0"
  shows "\<exists>n m cones tbl.
           uniform_len dofs = Inr n
         \<and> map_of (topology (cell el)) d = Some cones \<and> uniform_len cones = Inr m
         \<and> map_of pd d = Some tbl
         \<and> dict_keys tbl = map (\<lambda>ori. IntKey (int ori)) [0..<fact m * 2]
         \<and> list_all (\<lambda>perm. perm = [0..<n]) (dict_values tbl)"
proof -
  from assms(1,2) have "map_items (perm_table_simple (cell el)) (entity_dofs el) = Inr pd"
    by (simp add: permutations_def)
  from map_items_lookup [OF this assms(3)] obtain tbl where
    tbl: "perm_table_simple (cell el) d dofs = Inr tbl" and pd: "map_of pd d = Some tbl"
    by blast
  from tbl obtain n cones m where "uniform_len dofs = Inr n"
    and "map_of (topology (cell el)) d = Some cones" and "uniform_len cones = Inr m"
    and "tbl = map (\<lambda>ori. (IntKey (int ori), [0..<n])) [0..<fact m * 2]"
    unfolding perm_table_simple_other [OF assms(4)] by blast
  with pd show ?thesis
    by (auto simp: dict_keys_def dict_values_def list_all_iff comp_def)
qed

theorem permutations_shape_witness:
  "\<not> is_tensor_product (cell p2_interval)
   \<and> permutations p2_interval
       = Inr [(IntKey 0, [(IntKey 0, [0])]),
              (IntKey 1, [(IntKey 0, [0]), (IntKey 1, [0]), (IntKey 2, [0]), (IntKey 3, [0])])]
   \<and> map_of (entity_dofs p2_interval) (IntKey 1) = Some [(0, [2])]
   \<and> IntKey 1 \<noteq> IntKey 0
   \<and> (\<exists>n m cones tbl.
           uniform_len [(0::int, [2::int])] = Inr n
         \<and> map_of (topology (cell p2_interval)) (IntKey 1) = Some cones
         \<and> uniform_len cones = Inr m
         \<and> map_of [(IntKey 0, [(IntKey 0, [0])]),
              (IntKey 1, [(IntKey 0, [0]), (IntKey 1, [0]), (IntKey 2, [0]), (IntKey 3, [0])])]
              (IntKey 1) = Some tbl
         \<and> dict_keys tbl = map (\<lambda>ori. IntKey (int ori)) [0..<fact m * 2]
         \<and> list_all (\<lambda>perm. perm = [0..<n]) (dict_values tbl))"
proof -
  have c: "\<not> is_tensor_product (cell p2_interval)"
    by (simp add: p2_interval_def interval_def)
  have p: "permutations p2_interval
       = Inr [(IntKey 0, [(IntKey 0, [0])]),
              (IntKey 1, [(IntKey 0, [0]), (IntKey 1, [0]), (IntKey 2, [0]), (IntKey 3, [0])])]"
    by (simp add: permutations_def map_items_def perm_table_simple_def uniform_len_def
        unpack_set_def unpack_single_def dict_values_def getitem_def upt_conv_Cons
        Let_def p2_interval_def interval_def)
  have e: "map_of (entity_dofs p2_interval) (IntKey 1) = Some [(0, [2])]"
    by (simp add: p2_interval_def)
  have d: "IntKey 1 \<noteq> IntKey 0" by simp
  show ?thesis
    by (intro conjI c p e d permutations_shape [OF c p e d])
qed

text \<open>
  The claim as stated fails at dimension 0: the vertices of the interval have one entry
  each in \<^verbatim>\<open>cell.topology[0]\<close>, so the claim asks for the orientations 0 and 1, and the
  table of dimension 0 has the orientation 0 only.
\<close>

theorem permutations_shape_counterexample:
  "\<not> is_tensor_product (cell p2_interval)
   \<and> map_of (entity_dofs p2_interval) (IntKey 0) = Some [(0, [0]), (1, [1])]
   \<and> bindE (getitem (topology (cell p2_interval)) (IntKey 0)) uniform_len = Inr 1
   \<and> bindE (permutations p2_interval) (\<lambda>pd. getitem pd (IntKey 0)) = Inr [(IntKey 0, [0])]
   \<and> map (\<lambda>ori. IntKey (int ori)) [0..<fact 1 * 2] = [IntKey 0, IntKey 1]
   \<and> dict_keys [(IntKey 0, [0::nat])] = [IntKey 0]
   \<and> [IntKey 0] \<noteq> [IntKey 0, IntKey 1]"
  by (simp add: permutations_def map_items_def perm_table_simple_def uniform_len_def
      unpack_set_def unpack_single_def dict_values_def dict_keys_def getitem_def upt_conv_Cons
      Let_def p2_interval_def interval_def)

text \<open>
  C10. On a cell that is not a tensor product, whenever \<^verbatim>\<open>permutations()\<close> returns a
  table \<open>pd\<close> and 0 is a dimension of \<^verbatim>\<open>entity_dofs()\<close>, the vertices have a uniform
  number \<open>n\<close> of ids and \<open>pd[0]\<close> is the single entry \<open>{0: [0, ..., n - 1]}\<close>: the
  orientations are not enumerated at dimension 0.
\<close>

theorem permutations_vertex:
  assumes "\<not> is_tensor_product (cell el)"
    and "permutations el = Inr pd"
    and "map_of (entity_dofs el) (IntKey 0) = Some dofs"
  shows "\<exists>n. uniform_len dofs = Inr n \<and> map_of pd (IntKey 0) = Some [(IntKey 0, [0..<n])]"
proof -
  from assms(1,2) have "map_items (perm_table_simple (cell el)) (entity_dofs el) = Inr pd"
    by (simp add: permutations_def)
  from map_items_lookup [OF this assms(3)] show ?thesis
    by (auto simp: perm_table_simple_vertex)
qed

theorem permutations_vertex_witness:
  "\<not> is_tensor_product (cell p2_interval)
   \<and> permutations p2_interval
       = Inr [(IntKey 0, [(IntKey 0, [0])]),
              (IntKey 1, [(IntKey 0, [0]), (IntKey 1, [0]), (IntKey 2, [0]), (IntKey 3, [0])])]
   \<and> map_of (entity_dofs p2_interval) (IntKey 0) = Some [(0, [0]), (1, [1])]
   \<and> (\<exists>n. uniform_len [(0::int, [0::int]), (1, [1])] = Inr n
         \<and> map_of [(IntKey 0, [(IntKey 0, [0])]),
              (IntKey 1, [(IntKey 0, [0]), (IntKey 1, [0]), (IntKey 2, [0]), (IntKey 3, [0])])]
              (IntKey 0) = Some [(IntKey 0, [0..<n])])"
proof -
  have c: "\<not> is_tensor_product (cell p2_interval)"
    by (simp add: p2_interval_def interval_def)
  have p: "permutations p2_interval
       = Inr [(IntKey 0, [(IntKey 0, [0])]),
              (IntKey 1, [(IntKey 0, [0]), (IntKey 1, [0]), (IntKey 2, [0]), (IntKey 3, [0])])]"
    by (simp add: permutations_def map_items_def perm_table_simple_def uniform_len_def
        unpack_set_def unpack_single_def dict_values_def getitem_def upt_conv_Cons
        Let_def p2_interval_def interval_def)
  have e: "map_of (entity_dofs p2_interval) (IntKey 0) = Some [(0, [0]), (1, [1])]"
    by (simp add: p2_interval_def)
  show ?thesis
    by (intro conjI c p e permutations_vertex [OF c p e])
qed

lemma perm_table_simple_mismatch:
  "uniform_len dofs = Inl e \<Longrightarrow> perm_table_simple c d dofs = Inl e"
  by (simp add: perm_table_simple_def)

lemma perm_table_product_mismatch:
  "uniform_len dofs = Inl e \<Longrightarrow> perm_table_product c d dofs = Inl e"
  by (simp add: perm_table_product_def)

lemma map_items_fails:
  assumes "(k, v) \<in> set d" and "f k v = Inl e"
  shows "\<exists>e'. map_items f d = Inl e'"
  unfolding map_items_def
  by (rule mapE_fails [OF assms(1)]) (simp add: assms(2))

text \<open>
  C8. When two entities of one dimension of \<^verbatim>\<open>entity_dofs()\<close> have lists of different
  lengths, \<^verbatim>\<open>permutations()\<close> raises, on a tensor product cell and on any other cell.
\<close>

theorem permutations_nonuniform_fails:
  assumes "(d, dofs) \<in> set (entity_dofs el)"
    and "(e1, l1) \<in> set dofs" and "(e2, l2) \<in> set dofs"
    and "length l1 \<noteq> length l2"
  shows "\<exists>err. permutations el = Inl err"
proof -
  have u: "uniform_len dofs = Inl ValueError"
    by (rule uniform_len_mismatch [OF assms(2,3,4)])
  show ?thesis
  proof (cases "is_tensor_product (cell el)")
    case True
    have "perm_table_product (cell el) d dofs = Inl ValueError"
      by (rule perm_table_product_mismatch [OF u])
    from map_items_fails [of d dofs "entity_dofs el" "perm_table_product (cell el)", OF assms(1) this]
      True
    show ?thesis by (simp add: permutations_def)
  next
    case False
    have "perm_table_simple (cell el) d dofs = Inl ValueError"
      by (rule perm_table_simple_mismatch [OF u])
    from map_items_fails [of d dofs "entity_dofs el" "perm_table_simple (cell el)", OF assms(1) this]
      False
    show ?thesis by (simp add: permutations_def)
  qed
qed

theorem permutations_nonuniform_fails_witness:
  "(IntKey 0, [(0, [0]), (1, [1, 2])]) \<in> set (entity_dofs p2_interval_uneven)
   \<and> (0, [0]) \<in> set [(0::int, [0::int]), (1, [1, 2])]
   \<and> (1, [1, 2]) \<in> set [(0::int, [0::int]), (1, [1, 2])]
   \<and> length [0::int] \<noteq> length [1, 2::int]
   \<and> (\<exists>err. permutations p2_interval_uneven = Inl err)
   \<and> permutations p2_interval_uneven = Inl ValueError"
proof -
  have a: "(IntKey 0, [(0, [0]), (1, [1, 2])]) \<in> set (entity_dofs p2_interval_uneven)"
    by (simp add: p2_interval_uneven_def)
  have b: "(0, [0]) \<in> set [(0::int, [0::int]), (1, [1, 2])]" by simp
  have c: "(1, [1, 2]) \<in> set [(0::int, [0::int]), (1, [1, 2])]" by simp
  have d: "length [0::int] \<noteq> length [1, 2::int]" by simp
  have v: "permutations p2_interval_uneven = Inl ValueError"
    by (simp add: permutations_def map_items_def perm_table_simple_def uniform_len_def
        unpack_set_def unpack_single_def dict_values_def p2_interval_uneven_def
        p2_interval_def interval_def)
  show ?thesis
    by (intro conjI a b c d v permutations_nonuniform_fails [OF a b c d])
qed

text \<open>
  C9. \<^verbatim>\<open>fiat_equivalent\<close> of the base class returns nothing: it raises
  NotImplementedError with a message that ends with the name of the element's type.
\<close>

theorem fiat_equivalent_not_implemented:
  "fiat_equivalent el
     = Inl (NotImplementedError (''Cannot make equivalent FIAT element for '' @ type_name el))
   \<and> (\<forall>x. fiat_equivalent el \<noteq> Inr x)"
  by (simp add: fiat_equivalent_def)

subsection \<open>Actions on the state\<close>

lemma bind_eq_Inr:
  "bind m f s = (Inr y, s') \<longleftrightarrow> (\<exists>x s1. m s = (Inr x, s1) \<and> f x s1 = (Inr y, s'))"
  by (auto simp: bind_def split: prod.splits sum.splits)

lemma ret_eq: "ret x s = (r, s') \<longleftrightarrow> r = Inr x \<and> s' = s"
  by (auto simp: ret_def)

lemma lift_eq: "lift r s = (r', s') \<longleftrightarrow> r = r' \<and> s' = s"
  by (auto simp: lift_def)

lemma call_eq: "call c r s = (r', s') \<longleftrightarrow> r = r' \<and> s' = s\<lparr>calls := calls s @ [c]\<rparr>"
  by (auto simp: call_def)

lemma for_keys_lookup:
  assumes "for_keys g ks s = (Inr r, s')" and "k \<in> set ks"
  shows "\<exists>s1 s2 v. g k s1 = (Inr v, s2) \<and> map_of r k = Some v"
  using assms
proof (induction ks arbitrary: s r)
  case Nil
  then show ?case by simp
next
  case (Cons a ks)
  from Cons.prems(1) obtain v s1 rest where
    v: "g a s = (Inr v, s1)" and rest: "for_keys g ks s1 = (Inr rest, s')"
    and r: "r = (a, v) # rest"
    by (auto simp: bind_eq_Inr ret_eq)
  show ?case
  proof (cases "k = a")
    case True
    with v r show ?thesis by auto
  next
    case False
    with Cons.prems(2) have "k \<in> set ks" by simp
    from Cons.IH [OF rest this] False r show ?thesis by auto
  qed
qed

subsection \<open>The support table\<close>

lemma above_eps_member: "k \<in> set (above_eps ints) \<longleftrightarrow> k < length ints \<and> float_gt (ints ! k) eps"
  by (auto simp: above_eps_def)

lemma above_eps_ascending: "sorted_wrt (<) (above_eps ints)"
  unfolding above_eps_def by (rule sorted_wrt_filter) simp

lemma float_gt_irrefl: "\<not> float_gt x x"
  by (cases x) simp_all

lemma support_of_entity_Inr:
  assumes "support_of_entity env d beta zeta quad f s = (Inr l, s')"
  shows "\<exists>tab vals ev. basis_evaluation env 0 (point_set quad) (d, f) = Inr tab
           \<and> dict_values tab = [vals]
           \<and> evaluate env [integral_expr vals beta zeta quad] = Inr [ev]
           \<and> fids ev = [] \<and> l = above_eps (arr ev)"
  using assms
  by (auto simp: support_of_entity_def bind_eq_Inr call_eq lift_eq ret_eq
      unpack_single_eq_Inr py_assert_def split: if_splits)

lemma fresh_indices_extent: "map extent (fresh_indices n shape) = shape"
proof -
  have "map extent (fresh_indices n shape) = map snd (zip [n..<n + length shape] shape)"
    by (simp add: fresh_indices_def comp_def case_prod_unfold)
  also have "\<dots> = shape" by (rule map_snd_zip) simp
  finally show ?thesis .
qed

lemma make_indices_eq:
  "make_indices c shape s = (r, s') \<longleftrightarrow>
     r = Inr (fresh_indices (next_index s) shape)
     \<and> s' = s\<lparr>calls := calls s @ [c], next_index := next_index s + length shape\<rparr>"
  by (auto simp: make_indices_def)

lemma support_of_dim_Inr:
  assumes "support_of_dim env el d s = (Inr r, s')"
  shows "\<exists>beta zeta c quad entities s1.
           map extent beta = index_shape el \<and> map extent zeta = value_shape el
         \<and> construct_subelement env d = Inr c
         \<and> make_quadrature env c (double_degree (degree el)) = Inr quad
         \<and> map_of (entity_dofs el) d = Some entities
         \<and> for_keys (support_of_entity env d beta zeta quad) (dict_keys entities) s1 = (Inr r, s')"
proof -
  from assms obtain c quad entities s1 where
    "construct_subelement env d = Inr c"
    and "make_quadrature env c (double_degree (degree el)) = Inr quad"
    and "map_of (entity_dofs el) d = Some entities"
    and "for_keys (support_of_entity env d (fresh_indices (next_index s) (index_shape el))
            (fresh_indices (next_index s + length (index_shape el)) (value_shape el)) quad)
          (dict_keys entities) s1 = (Inr r, s')"
    unfolding support_of_dim_def get_indices_def get_value_indices_def
    by (auto simp: bind_eq_Inr call_eq make_indices_eq getitem_eq_Inr)
  then show ?thesis
    using fresh_indices_extent [of "next_index s" "index_shape el"]
      fresh_indices_extent [of "next_index s + length (index_shape el)" "value_shape el"]
    by blast
qed

lemma support_fresh:
  "support_cache s = None \<Longrightarrow> fst (entity_support_dofs env el s) = fst (entity_support_dofs_body env el s)"
  by (simp add: entity_support_dofs_def split: prod.splits sum.splits)

text \<open>
  C1. Whenever \<^verbatim>\<open>entity_support_dofs()\<close> returns a table \<open>esd\<close> on an instance whose cache
  is empty, \<open>d\<close> is a dimension of \<^verbatim>\<open>cell.sub_entities\<close> and \<open>f\<close> an entity of
  \<^verbatim>\<open>entity_dofs()[d]\<close>: the evaluator was given the sum over the quadrature points of the
  weight times the sum over the value indices of the squared tabulation of order 0 on
  \<open>(d, f)\<close>, as a tensor over the basis indices; it returned an array \<open>arr ev\<close>; and
  \<open>k\<close> is in \<open>esd[d][f]\<close> if and only if \<open>k\<close> is a position of that array whose value is
  greater than \<^verbatim>\<open>1.e-8\<close>. A value equal to \<^verbatim>\<open>1.e-8\<close> is left out, and the list is strictly
  ascending.
\<close>

theorem support_dofs_threshold:
  assumes "support_cache s = None"
    and "fst (entity_support_dofs env el s) = Inr esd"
    and "d \<in> set (dict_keys (sub_entities (cell el)))"
    and "map_of (entity_dofs el) d = Some entities"
    and "f \<in> set (dict_keys entities)"
  shows "\<exists>beta zeta c quad tab vals ev l.
           map extent beta = index_shape el \<and> map extent zeta = value_shape el
         \<and> construct_subelement env d = Inr c
         \<and> make_quadrature env c (double_degree (degree el)) = Inr quad
         \<and> basis_evaluation env 0 (point_set quad) (d, f) = Inr tab \<and> dict_values tab = [vals]
         \<and> evaluate env
              [ComponentTensor
                 (IndexSum
                    (Product
                       (IndexSum (Product (Indexed vals (beta @ zeta)) (Indexed vals (beta @ zeta)))
                          zeta)
                       (weight_expression quad))
                    (indices (point_set quad)))
                 beta] = Inr [ev]
         \<and> entry esd (d, f) = Some l
         \<and> (\<forall>k. k \<in> set l \<longleftrightarrow> k < length (arr ev) \<and> float_gt (arr ev ! k) eps)
         \<and> (\<forall>k. k < length (arr ev) \<and> arr ev ! k = eps \<longrightarrow> k \<notin> set l)
         \<and> sorted_wrt (<) l"
proof -
  from assms(1,2) obtain s' where
    "for_keys (support_of_dim env el) (dict_keys (sub_entities (cell el))) s = (Inr esd, s')"
    by (cases "entity_support_dofs_body env el s") (simp add: support_fresh entity_support_dofs_body_def)
  from for_keys_lookup [OF this assms(3)] obtain s1 s2 r where
    r: "support_of_dim env el d s1 = (Inr r, s2)" and esd: "map_of esd d = Some r"
    by blast
  from support_of_dim_Inr [OF r] assms(4) obtain beta zeta c quad s3 where
    beta: "map extent beta = index_shape el" and zeta: "map extent zeta = value_shape el"
    and c: "construct_subelement env d = Inr c"
    and quad: "make_quadrature env c (double_degree (degree el)) = Inr quad"
    and loop: "for_keys (support_of_entity env d beta zeta quad) (dict_keys entities) s3
                 = (Inr r, s2)"
    by auto
  from for_keys_lookup [OF loop assms(5)] obtain s4 s5 l where
    l: "support_of_entity env d beta zeta quad f s4 = (Inr l, s5)" and rf: "map_of r f = Some l"
    by blast
  from support_of_entity_Inr [OF l] obtain tab vals ev where
    tab: "basis_evaluation env 0 (point_set quad) (d, f) = Inr tab" "dict_values tab = [vals]"
    and ev: "evaluate env [integral_expr vals beta zeta quad] = Inr [ev]"
    and lv: "l = above_eps (arr ev)"
    by blast
  from esd rf have e: "entry esd (d, f) = Some l" by (simp add: entry_def)
  have m: "\<forall>k. k \<in> set l \<longleftrightarrow> k < length (arr ev) \<and> float_gt (arr ev ! k) eps"
    by (simp add: lv above_eps_member)
  have x: "\<forall>k. k < length (arr ev) \<and> arr ev ! k = eps \<longrightarrow> k \<notin> set l"
    by (auto simp: lv above_eps_member float_gt_irrefl)
  have a: "sorted_wrt (<) l"
    by (simp add: lv above_eps_ascending)
  from beta zeta c quad tab ev [unfolded integral_expr_def] e m x a show ?thesis
    by blast
qed

theorem support_dofs_threshold_witness:
  "support_cache (new_instance :: key state) = None
   \<and> fst (entity_support_dofs stub_env p2_interval new_instance)
       = Inr [(IntKey 0, [(0, [0]), (1, [1])]), (IntKey 1, [(0, [0, 1, 2])])]
   \<and> IntKey 0 \<in> set (dict_keys (sub_entities (cell p2_interval)))
   \<and> map_of (entity_dofs p2_interval) (IntKey 0) = Some [(0, [0]), (1, [1])]
   \<and> 1 \<in> set (dict_keys [(0::int, [0::int]), (1, [1])])
   \<and> (\<exists>beta zeta c quad tab vals ev l.
           map extent beta = index_shape p2_interval \<and> map extent zeta = value_shape p2_interval
         \<and> construct_subelement stub_env (IntKey 0) = Inr c
         \<and> make_quadrature stub_env c (double_degree (degree p2_interval)) = Inr quad
         \<and> basis_evaluation stub_env 0 (point_set quad) (IntKey 0, 1) = Inr tab
         \<and> dict_values tab = [vals]
         \<and> evaluate stub_env
              [ComponentTensor
                 (IndexSum
                    (Product
                       (IndexSum (Product (Indexed vals (beta @ zeta)) (Indexed vals (beta @ zeta)))
                          zeta)
                       (weight_expression quad))
                    (indices (point_set quad)))
                 beta] = Inr [ev]
         \<and> entry [(IntKey 0, [(0::int, [0::nat]), (1, [1])]), (IntKey 1, [(0, [0, 1, 2])])]
              (IntKey 0, 1) = Some l
         \<and> (\<forall>k. k \<in> set l \<longleftrightarrow> k < length (arr ev) \<and> float_gt (arr ev ! k) eps)
         \<and> (\<forall>k. k < length (arr ev) \<and> arr ev ! k = eps \<longrightarrow> k \<notin> set l)
         \<and> sorted_wrt (<) l)"
proof -
  have c: "support_cache (new_instance :: key state) = None"
    by (simp add: new_instance_def)
  have r: "fst (entity_support_dofs stub_env p2_interval new_instance)
       = Inr [(IntKey 0, [(0, [0]), (1, [1])]), (IntKey 1, [(0, [0, 1, 2])])]"
    by (simp add: entity_support_dofs_def entity_support_dofs_body_def support_of_dim_def
        support_of_entity_def get_indices_def get_value_indices_def make_indices_def
        bind_def call_def lift_def ret_def getitem_def dict_keys_def dict_values_def
        unpack_single_def py_assert_def above_eps_def integral_expr_def stub_integrals_def
        stub_env_def new_instance_def eps_def double_degree_def fresh_indices_def
        upt_conv_Cons p2_interval_def interval_def)
  have d: "IntKey 0 \<in> set (dict_keys (sub_entities (cell p2_interval)))"
    by (simp add: dict_keys_def p2_interval_def interval_def)
  have e: "map_of (entity_dofs p2_interval) (IntKey 0) = Some [(0, [0]), (1, [1])]"
    by (simp add: p2_interval_def)
  have f: "1 \<in> set (dict_keys [(0::int, [0::int]), (1, [1])])"
    by (simp add: dict_keys_def)
  show ?thesis
    by (intro conjI c r d e f support_dofs_threshold [OF c r d e f])
qed

subsection \<open>The requests for quadrature rules\<close>









subsection \<open>The caches\<close>







end
